theory Spec2Isabelle
  imports Main "HOL-Library.Word" "HOL-Library.Sublist"
begin

section \<open>Go values shared by both packages\<close>

text \<open>
  A Go \<open>error\<close> value. The three sentinels are the ones \<open>state.go\<close> returns;
  \<open>External\<close> stands for an error produced by a package outside the modelled files, and
  \<open>Wrap e msg\<close> is \<open>errors.Wrap(e, msg)\<close>. A returned \<open>error\<close> is an \<open>err option\<close>,
  with \<open>None\<close> for \<open>nil\<close>.
\<close>

datatype err =
    ErrNotEnoughBalance
  | ErrFailedToMarshalState
  | ErrFailedToUnmarshalState
  | External string
  | Wrap err string

text \<open>
  A call returns, or stops with a run-time panic (a nil pointer dereference is the only
  panic the modelled code raises itself), or ends the process (\<open>Exit\<close>; nothing in
  the modelled code does so itself, it is one of the ways the unmodelled tail of
  \<open>NewServer\<close> may end).
\<close>

datatype 'a outcome = Panic | Exit | Return 'a

section \<open>Package state: the account record (state.go)\<close>

subsection \<open>The store\<close>

text \<open>
  \<open>Balance\<close> and \<open>VotingWeight\<close> are \<open>*big.Int\<close>, \<open>CodeHash\<close> is a byte slice and
  \<open>Voters\<close> is a map: all four are references, so the objects they refer to live in a
  store. An object is addressed by its index in the store, allocation appends, and a
  reference is \<open>None\<close> for \<open>nil\<close>. The value of a \<open>big.Int\<close> is an unbounded integer.
\<close>

type_synonym ref = "nat option"

record heap =
  bigs :: "int list"
  arrays :: "8 word list list"
  maps :: "(string \<rightharpoonup> ref) list"

text \<open>A slice header: backing array, offset of the first element, length and capacity.\<close>

record slice =
  s_arr :: nat
  s_off :: nat
  s_len :: nat
  s_cap :: nat

definition load :: "heap \<Rightarrow> ref \<Rightarrow> int option" where
  "load h p = (case p of None \<Rightarrow> None
               | Some i \<Rightarrow> if i < length (bigs h) then Some (bigs h ! i) else None)"

definition store :: "heap \<Rightarrow> nat \<Rightarrow> int \<Rightarrow> heap" where
  "store h i v = h\<lparr>bigs := (bigs h)[i := v]\<rparr>"

definition slice_ok :: "heap \<Rightarrow> slice \<Rightarrow> bool" where
  "slice_ok h c \<longleftrightarrow> s_arr c < length (arrays h) \<and> s_len c \<le> s_cap c \<and>
     s_off c + s_cap c \<le> length (arrays h ! s_arr c)"

definition slice_bytes :: "heap \<Rightarrow> slice \<Rightarrow> 8 word list" where
  "slice_bytes h c = take (s_len c) (drop (s_off c) (arrays h ! s_arr c))"

subsection \<open>The operations of math/big that state.go calls\<close>

text \<open>
  \<open>new(big.Int)\<close> allocates a zero. \<open>z.Set(x)\<close>, \<open>z.Add(x, y)\<close> and \<open>z.Sub(x, y)\<close>
  read their operands and then overwrite \<open>z\<close>, so an operand may be \<open>z\<close> itself;
  \<open>x.Cmp(y)\<close> is \<open>-1\<close>, \<open>0\<close> or \<open>1\<close>. Each of them dereferences its receiver and its
  arguments and panics on \<open>nil\<close>. (Where a release of the library lets \<open>Cmp\<close> return
  \<open>0\<close> for two identical pointers without reading them, the \<open>Sub\<close> that follows in
  \<open>SubBalance\<close> panics on the same \<open>nil\<close>, so the methods below are not affected.)
\<close>

definition Int_new :: "heap \<Rightarrow> nat \<times> heap" where
  "Int_new h = (length (bigs h), h\<lparr>bigs := bigs h @ [0]\<rparr>)"

definition Int_Set :: "heap \<Rightarrow> ref \<Rightarrow> ref \<Rightarrow> heap outcome" where
  "Int_Set h z x =
     (case (z, load h z, load h x) of
        (Some i, Some _, Some xv) \<Rightarrow> Return (store h i xv)
      | _ \<Rightarrow> Panic)"

definition Int_Add :: "heap \<Rightarrow> ref \<Rightarrow> ref \<Rightarrow> ref \<Rightarrow> heap outcome" where
  "Int_Add h z x y =
     (case (z, load h z, load h x, load h y) of
        (Some i, Some _, Some xv, Some yv) \<Rightarrow> Return (store h i (xv + yv))
      | _ \<Rightarrow> Panic)"

definition Int_Sub :: "heap \<Rightarrow> ref \<Rightarrow> ref \<Rightarrow> ref \<Rightarrow> heap outcome" where
  "Int_Sub h z x y =
     (case (z, load h z, load h x, load h y) of
        (Some i, Some _, Some xv, Some yv) \<Rightarrow> Return (store h i (xv - yv))
      | _ \<Rightarrow> Panic)"

definition Int_Cmp :: "heap \<Rightarrow> ref \<Rightarrow> ref \<Rightarrow> int outcome" where
  "Int_Cmp h x y =
     (case (load h x, load h y) of
        (Some xv, Some yv) \<Rightarrow> Return (if xv < yv then - 1 else if xv = yv then 0 else 1)
      | _ \<Rightarrow> Panic)"

subsection \<open>The built-ins make and copy on byte slices\<close>

definition make_bytes :: "heap \<Rightarrow> nat \<Rightarrow> slice \<times> heap" where
  "make_bytes h n =
     (\<lparr>s_arr = length (arrays h), s_off = 0, s_len = n, s_cap = n\<rparr>,
      h\<lparr>arrays := arrays h @ [replicate n 0]\<rparr>)"

text \<open>\<open>copy(dst, src)\<close> moves \<open>min(len(dst), len(src))\<close> bytes, read before any is written.\<close>

definition copy_bytes :: "heap \<Rightarrow> slice \<Rightarrow> slice \<Rightarrow> heap" where
  "copy_bytes h dst src =
     (let n = min (s_len dst) (s_len src);
          bs = take n (slice_bytes h src);
          a = arrays h ! s_arr dst
      in h\<lparr>arrays := (arrays h)[s_arr dst :=
             take (s_off dst) a @ bs @ drop (s_off dst + n) a]\<rparr>)"

subsection \<open>State and its methods\<close>

record State =
  Nonce :: "64 word"
  Balance :: ref
  Root :: "8 word list"
  CodeHash :: "slice option"
  IsCandidate :: bool
  VotingWeight :: ref
  Votee :: string
  Voters :: ref

text \<open>
  The methods take the receiver's fields by value: none of them assigns to a field of
  \<open>*st\<close>; \<open>AddBalance\<close> and \<open>SubBalance\<close> change the \<open>big.Int\<close> that \<open>st.Balance\<close>
  points to. Each returns the \<open>error\<close> and the store it leaves.
\<close>

definition AddBalance :: "heap \<Rightarrow> State \<Rightarrow> ref \<Rightarrow> (err option \<times> heap) outcome" where
  "AddBalance h st amount =
     (case Int_Add h (Balance st) (Balance st) amount of
        Panic \<Rightarrow> Panic
      | Return h' \<Rightarrow> Return (None, h'))"

definition SubBalance :: "heap \<Rightarrow> State \<Rightarrow> ref \<Rightarrow> (err option \<times> heap) outcome" where
  "SubBalance h st amount =
     (case Int_Cmp h amount (Balance st) of
        Panic \<Rightarrow> Panic
      | Return c \<Rightarrow>
          if c = 1 then Return (Some ErrNotEnoughBalance, h)
          else (case Int_Sub h (Balance st) (Balance st) amount of
                  Panic \<Rightarrow> Panic
                | Return h' \<Rightarrow> Return (None, h')))"

text \<open>\<open>new(big.Int).Set(x)\<close>: the allocation comes first, then \<open>Set\<close> dereferences \<open>x\<close>.\<close>

definition Int_new_Set :: "heap \<Rightarrow> ref \<Rightarrow> (nat \<times> heap) outcome" where
  "Int_new_Set h x =
     (let (i, h1) = Int_new h
      in case Int_Set h1 (Some i) x of
           Panic \<Rightarrow> Panic
         | Return h2 \<Rightarrow> Return (i, h2))"

definition clone :: "heap \<Rightarrow> State \<Rightarrow> (State \<times> heap) outcome" where
  "clone h st =
     (case Int_new_Set h (Balance st) of
        Panic \<Rightarrow> Panic
      | Return (b, h1) \<Rightarrow>
          (case Int_new_Set h1 (VotingWeight st) of
             Panic \<Rightarrow> Panic
           | Return (v, h2) \<Rightarrow>
               (let s = st\<lparr>Balance := Some b, VotingWeight := Some v\<rparr>;
                    (s, h3) =
                      (case CodeHash st of
                         None \<Rightarrow> (s, h2)
                       | Some c \<Rightarrow>
                           (let (c', h') = make_bytes h2 (s_len c)
                            in (s\<lparr>CodeHash := Some c'\<rparr>, copy_bytes h' c' c)))
                in Return (s\<lparr>Voters := None\<rparr>, h3))))"


subsection \<open>The codec wrappers\<close>

text \<open>
  \<open>stateToBytes\<close> and \<open>bytesToState\<close> hand the State to \<open>encoding/gob\<close> and turn any
  error of the library into their own. The library is not part of the repository, so its
  encoder and decoder are parameters: each yields \<open>None\<close> where the library returns an
  error. The encoder is given the whole State, \<open>Voters\<close> included.
\<close>

type_synonym gob_Encode = "heap \<Rightarrow> State \<Rightarrow> 8 word list option"

type_synonym gob_Decode = "heap \<Rightarrow> 8 word list \<Rightarrow> (State \<times> heap) option"

definition stateToBytes :: "gob_Encode \<Rightarrow> heap \<Rightarrow> State \<Rightarrow> err + 8 word list" where
  "stateToBytes Encode h s =
     (case Encode h s of
        None \<Rightarrow> Inl ErrFailedToMarshalState
      | Some ss \<Rightarrow> Inr ss)"

definition bytesToState :: "gob_Decode \<Rightarrow> heap \<Rightarrow> 8 word list \<Rightarrow> err + (State \<times> heap)" where
  "bytesToState Decode h ss =
     (case Decode h ss of
        None \<Rightarrow> Inl ErrFailedToUnmarshalState
      | Some (st, h') \<Rightarrow> Inr (st, h'))"

section \<open>Package itx: the server (server.go)\<close>

subsection \<open>Calls into other packages\<close>

text \<open>
  The server owns objects of other packages and calls their methods. A call is recorded
  in a trace, and its result is given by an environment that sees the calls made so far,
  so that a callee may answer differently as the world changes. Objects and messages of
  types declared in other packages are identified by a number.
\<close>

definition invoke :: "('c list \<Rightarrow> 'c \<Rightarrow> 'r) \<Rightarrow> 'c \<Rightarrow> 'c list \<Rightarrow> 'r \<times> 'c list" where
  "invoke env c tr = (env tr c, tr @ [c])"

subsection \<open>bcService\<close>

text \<open>
  \<open>pb.ActionPb\<close> is read through its three getters only, each a pointer to the payload
  or \<open>nil\<close>. \<open>ConvertFromActionPb(act)\<close> fills a fresh action from \<open>act\<close> alone, so the
  action handed to the pool is represented by the message it was converted from.
\<close>

record ActionPb =
  GetTransfer :: "nat option"
  GetVote :: "nat option"
  GetExecution :: "nat option"

datatype bc_call =
    AddTsf ActionPb
  | AddVote ActionPb
  | AddExecution ActionPb
  | ProcessBlock nat
  | ProcessBlockSync nat
  | ProcessSyncRequest string nat
  | cs_HandleViewChange nat
  | cs_HandleBlockPropose nat

type_synonym bc_env = "bc_call list \<Rightarrow> bc_call \<Rightarrow> err option"

definition HandleAction :: "bc_env \<Rightarrow> ActionPb \<Rightarrow> bc_call list \<Rightarrow> err option \<times> bc_call list" where
  "HandleAction env act tr =
     (if GetTransfer act \<noteq> None then
        (case invoke env (AddTsf act) tr of
           (Some e, tr') \<Rightarrow> (Some e, tr')
         | (None, tr') \<Rightarrow> (None, tr'))
      else if GetVote act \<noteq> None then
        (case invoke env (AddVote act) tr of
           (Some e, tr') \<Rightarrow> (Some e, tr')
         | (None, tr') \<Rightarrow> (None, tr'))
      else if GetExecution act \<noteq> None then
        (case invoke env (AddExecution act) tr of
           (Some e, tr') \<Rightarrow> (Some e, tr')
         | (None, tr') \<Rightarrow> (None, tr'))
      else (None, tr))"

definition HandleBlock :: "bc_env \<Rightarrow> nat \<Rightarrow> bc_call list \<Rightarrow> err option \<times> bc_call list" where
  "HandleBlock env blk tr = invoke env (ProcessBlock blk) tr"

definition HandleBlockSync :: "bc_env \<Rightarrow> nat \<Rightarrow> bc_call list \<Rightarrow> err option \<times> bc_call list" where
  "HandleBlockSync env blk tr = invoke env (ProcessBlockSync blk) tr"

definition HandleSyncRequest ::
  "bc_env \<Rightarrow> string \<Rightarrow> nat \<Rightarrow> bc_call list \<Rightarrow> err option \<times> bc_call list" where
  "HandleSyncRequest env sender sync tr = invoke env (ProcessSyncRequest sender sync) tr"

definition HandleViewChange :: "bc_env \<Rightarrow> nat \<Rightarrow> bc_call list \<Rightarrow> err option \<times> bc_call list" where
  "HandleViewChange env msg tr = invoke env (cs_HandleViewChange msg) tr"

definition HandleBlockPropose :: "bc_env \<Rightarrow> nat \<Rightarrow> bc_call list \<Rightarrow> err option \<times> bc_call list" where
  "HandleBlockPropose env msg tr = invoke env (cs_HandleBlockPropose msg) tr"

subsection \<open>NewServer\<close>

text \<open>The fields of \<open>config.Config\<close> that \<open>NewServer\<close> reads, all under \<open>cfg.Chain\<close>.\<close>

record Chain =
  ChainDBPath :: string
  TrieDBPath :: string
  EnableFallBackToFreshDB :: bool

record Config =
  Chain :: Chain

record Server =
  cfg :: Config
  chain :: nat
  actPool :: nat
  p2p :: nat
  consensus :: nat
  blocksync :: nat
  dispatcher :: nat
  explorer :: nat

datatype sys_call =
    call_NewBlockchain
  | call_Rename string string
  | call_ChainID nat
  | call_newServer nat

text \<open>
  \<open>blockchain.NewBlockchain\<close> returns a chain or \<open>nil\<close>, \<open>os.Rename\<close> an error or
  \<open>nil\<close>. \<open>newServer\<close> builds the subsystems from six further packages; \<open>NewServer\<close>
  hands its result on unchanged, so it is taken from the environment as well.
\<close>

record sys_env =
  NewBlockchain :: "sys_call list \<Rightarrow> Config \<Rightarrow> nat option"
  os_Rename :: "sys_call list \<Rightarrow> string \<Rightarrow> string \<Rightarrow> err option"
  newServer :: "sys_call list \<Rightarrow> Config \<Rightarrow> nat \<Rightarrow> Server outcome"

text \<open>
  Lines 111 and 112: \<open>chain.ChainID()\<close> on a \<open>nil\<close> interface value panics; otherwise
  the identifier is logged and \<open>newServer(cfg, chain)\<close> is returned.
\<close>

definition NewServer_tail ::
  "sys_env \<Rightarrow> Config \<Rightarrow> nat option \<Rightarrow> sys_call list \<Rightarrow> Server option outcome \<times> sys_call list" where
  "NewServer_tail env c bc tr =
     (case bc of
        None \<Rightarrow> (Panic, tr)
      | Some b \<Rightarrow>
          (let tr1 = tr @ [call_ChainID b]
           in (case newServer env tr1 c b of
                 Panic \<Rightarrow> Panic
               | Exit \<Rightarrow> Exit
               | Return s \<Rightarrow> Return (Some s),
               tr1 @ [call_newServer b])))"

definition NewServer ::
  "sys_env \<Rightarrow> Config \<Rightarrow> sys_call list \<Rightarrow> Server option outcome \<times> sys_call list" where
  "NewServer env c tr =
     (let bc = NewBlockchain env tr c;
          tr1 = tr @ [call_NewBlockchain]
      in if bc = None \<and> EnableFallBackToFreshDB (Chain c) then
           (let old = ChainDBPath (Chain c);
                tr2 = tr1 @ [call_Rename old (old @ ''.old'')]
            in case os_Rename env tr1 old (old @ ''.old'') of
                 Some e \<Rightarrow> (Return None, tr2)
               | None \<Rightarrow>
                   (let old' = TrieDBPath (Chain c);
                        tr3 = tr2 @ [call_Rename old' (old' @ ''.old'')]
                    in case os_Rename env tr2 old' (old' @ ''.old'') of
                         Some e \<Rightarrow> (Return None, tr3)
                       | None \<Rightarrow>
                           NewServer_tail env c (NewBlockchain env tr3 c)
                             (tr3 @ [call_NewBlockchain])))
         else NewServer_tail env c bc tr1)"

subsection \<open>Start and Stop\<close>

datatype component = Blockchain | Dispatcher | Consensus | BlockSync | Overlay | ExplorerServer

datatype life_call = StartOf component | StopOf component

type_synonym life_env = "life_call list \<Rightarrow> life_call \<Rightarrow> err option"

definition Start :: "life_env \<Rightarrow> life_call list \<Rightarrow> err option \<times> life_call list" where
  "Start env tr =
     (case invoke env (StartOf Blockchain) tr of
        (Some e, tr1) \<Rightarrow> (Some (Wrap e ''error when starting blockchain''), tr1)
      | (None, tr1) \<Rightarrow>
     (case invoke env (StartOf Dispatcher) tr1 of
        (Some e, tr2) \<Rightarrow> (Some (Wrap e ''error when starting dispatcher''), tr2)
      | (None, tr2) \<Rightarrow>
     (case invoke env (StartOf Consensus) tr2 of
        (Some e, tr3) \<Rightarrow> (Some (Wrap e ''error when starting consensus''), tr3)
      | (None, tr3) \<Rightarrow>
     (case invoke env (StartOf BlockSync) tr3 of
        (Some e, tr4) \<Rightarrow> (Some (Wrap e ''error when starting blocksync''), tr4)
      | (None, tr4) \<Rightarrow>
     (case invoke env (StartOf Overlay) tr4 of
        (Some e, tr5) \<Rightarrow> (Some (Wrap e ''error when starting P2P networks''), tr5)
      | (None, tr5) \<Rightarrow>
     (case invoke env (StartOf ExplorerServer) tr5 of
        (Some e, tr6) \<Rightarrow> (Some (Wrap e ''error when starting explorer''), tr6)
      | (None, tr6) \<Rightarrow> (None, tr6)))))))"

definition Stop :: "life_env \<Rightarrow> life_call list \<Rightarrow> err option \<times> life_call list" where
  "Stop env tr =
     (case invoke env (StopOf ExplorerServer) tr of
        (Some e, tr1) \<Rightarrow> (Some (Wrap e ''error when stopping explorer''), tr1)
      | (None, tr1) \<Rightarrow>
     (case invoke env (StopOf Overlay) tr1 of
        (Some e, tr2) \<Rightarrow> (Some (Wrap e ''error when stopping P2P networks''), tr2)
      | (None, tr2) \<Rightarrow>
     (case invoke env (StopOf Consensus) tr2 of
        (Some e, tr3) \<Rightarrow> (Some (Wrap e ''error when stopping consensus''), tr3)
      | (None, tr3) \<Rightarrow>
     (case invoke env (StopOf BlockSync) tr3 of
        (Some e, tr4) \<Rightarrow> (Some (Wrap e ''error when stopping blocksync''), tr4)
      | (None, tr4) \<Rightarrow>
     (case invoke env (StopOf Dispatcher) tr4 of
        (Some e, tr5) \<Rightarrow> (Some (Wrap e ''error when stopping dispatcher''), tr5)
      | (None, tr5) \<Rightarrow>
     (case invoke env (StopOf Blockchain) tr5 of
        (Some e, tr6) \<Rightarrow> (Some (Wrap e ''error when stopping blockchain''), tr6)
      | (None, tr6) \<Rightarrow> (None, tr6)))))))"


section \<open>Well-formed values and sample inputs\<close>

text \<open>A non-nil \<open>CodeHash\<close> lies inside an allocated array.\<close>

definition code_ok :: "heap \<Rightarrow> State \<Rightarrow> bool" where
  "code_ok h st = (case CodeHash st of None \<Rightarrow> True | Some c \<Rightarrow> slice_ok h c)"

definition component_of :: "life_call \<Rightarrow> component" where
  "component_of c = (case c of StartOf x \<Rightarrow> x | StopOf x \<Rightarrow> x)"

definition heap0 :: heap where
  "heap0 = \<lparr>bigs = [100, 30, 250], arrays = [[1, 2, 3, 4]], maps = [Map.empty]\<rparr>"

definition acct0 :: State where
  "acct0 = \<lparr>Nonce = 1, Balance = Some 0, Root = replicate 32 0,
             CodeHash = Some \<lparr>s_arr = 0, s_off = 1, s_len = 2, s_cap = 3\<rparr>,
             IsCandidate = True, VotingWeight = Some 2, Votee = ''io1voter'',
             Voters = Some 0\<rparr>"

definition acct_nil :: State where
  "acct_nil = \<lparr>Nonce = 0, Balance = None, Root = replicate 32 0, CodeHash = None,
                IsCandidate = False, VotingWeight = None, Votee = [], Voters = None\<rparr>"

definition reject_all :: bc_env where
  "reject_all tr c = Some (External ''rejected'')"

definition no_kind :: ActionPb where
  "no_kind = \<lparr>GetTransfer = None, GetVote = None, GetExecution = None\<rparr>"

definition vote_msg :: ActionPb where
  "vote_msg = \<lparr>GetTransfer = None, GetVote = Some 7, GetExecution = None\<rparr>"

definition all_succeed :: life_env where
  "all_succeed tr c = None"

definition cfg_fallback :: Config where
  "cfg_fallback = \<lparr>Chain = \<lparr>ChainDBPath = ''chain.db'', TrieDBPath = ''trie.db'',
                               EnableFallBackToFreshDB = True\<rparr>\<rparr>"

definition cfg_strict :: Config where
  "cfg_strict = \<lparr>Chain = \<lparr>ChainDBPath = ''chain.db'', TrieDBPath = ''trie.db'',
                             EnableFallBackToFreshDB = False\<rparr>\<rparr>"

definition built :: "Config \<Rightarrow> nat \<Rightarrow> Server" where
  "built c b = \<lparr>cfg = c, chain = b, actPool = 1, p2p = 2, consensus = 3, blocksync = 4,
                dispatcher = 5, explorer = 6\<rparr>"

text \<open>A world whose chain database is unreadable until it has been renamed away.\<close>

definition corrupt_db :: sys_env where
  "corrupt_db = \<lparr>NewBlockchain = (\<lambda>tr c. if tr = [] then None else Some 9),
                  os_Rename = (\<lambda>tr old new. None),
                  newServer = (\<lambda>tr c b. Return (built c b))\<rparr>"

text \<open>A world in which no blockchain can be created.\<close>

definition no_chain :: sys_env where
  "no_chain = \<lparr>NewBlockchain = (\<lambda>tr c. None),
                os_Rename = (\<lambda>tr old new. None),
                newServer = (\<lambda>tr c b. Return (built c b))\<rparr>"

section \<open>Properties of the account record\<close>

subsection \<open>Reading and writing the store\<close>

lemma load_Some_iff:
  "load h p = Some v \<longleftrightarrow> (\<exists>i. p = Some i \<and> i < length (bigs h) \<and> bigs h ! i = v)"
  by (auto simp: load_def split: option.splits)

lemma load_store:
  "load (store h i v) (Some j) =
     (if j < length (bigs h) then Some (if j = i then v else bigs h ! j) else None)"
  by (simp add: load_def store_def)

lemma load_append:
  "load h p = Some x \<Longrightarrow> load (h\<lparr>bigs := bigs h @ ys\<rparr>) p = Some x"
  by (auto simp: load_Some_iff nth_append)

lemma Int_Add_ok:
  assumes "load h (Some i) = Some zv" and "load h y = Some yv"
  shows "Int_Add h (Some i) (Some i) y = Return (store h i (zv + yv))"
  using assms by (simp add: Int_Add_def)

lemma Int_Sub_ok:
  assumes "load h (Some i) = Some zv" and "load h y = Some yv"
  shows "Int_Sub h (Some i) (Some i) y = Return (store h i (zv - yv))"
  using assms by (simp add: Int_Sub_def)

lemma Int_Cmp_ok:
  assumes "load h x = Some xv" and "load h y = Some yv"
  shows "Int_Cmp h x y = Return (if xv < yv then - 1 else if xv = yv then 0 else 1)"
  using assms by (simp add: Int_Cmp_def)

lemma Int_new_Set_ok:
  assumes "load h x = Some xv"
  shows "Int_new_Set h x = Return (length (bigs h), h\<lparr>bigs := bigs h @ [xv]\<rparr>)"
proof -
  from assms obtain j where j: "x = Some j" "j < length (bigs h)" "bigs h ! j = xv"
    by (auto simp: load_Some_iff)
  then show ?thesis
    by (simp add: Int_new_Set_def Int_new_def Int_Set_def load_def store_def nth_append)
qed

lemma Int_new_Set_nil: "Int_new_Set h None = Panic"
  by (simp add: Int_new_Set_def Int_new_def Int_Set_def load_def)

subsection \<open>AddBalance and SubBalance\<close>

lemma AddBalance_ok:
  assumes "load h (Some i) = Some b" and "load h amount = Some a" and "Balance st = Some i"
  shows "AddBalance h st amount = Return (None, store h i (b + a))"
  using assms by (simp add: AddBalance_def Int_Add_ok)

lemma SubBalance_ok:
  assumes "load h (Some i) = Some b" and "load h amount = Some a" and "Balance st = Some i"
  shows "SubBalance h st amount =
           Return (if b < a then (Some ErrNotEnoughBalance, h) else (None, store h i (b - a)))"
  using assms by (simp add: SubBalance_def Int_Cmp_ok Int_Sub_ok)

lemma AddBalance_nil: "Balance st = None \<or> amount = None \<Longrightarrow> AddBalance h st amount = Panic"
  by (auto simp: AddBalance_def Int_Add_def load_def split: option.splits)

lemma SubBalance_nil: "Balance st = None \<or> amount = None \<Longrightarrow> SubBalance h st amount = Panic"
  by (auto simp: SubBalance_def Int_Cmp_def load_def split: option.splits)

text \<open>
  Claim C1. For a State whose balance is \<open>b\<close> and an amount of value \<open>a \<ge> 0\<close>,
  \<open>SubBalance\<close> returns \<open>ErrNotEnoughBalance\<close> exactly when \<open>a > b\<close>, and then the
  whole store, the balance included, is as it was; otherwise it returns \<open>nil\<close> and the
  balance is \<open>b - a\<close>.
\<close>

theorem SubBalance_insufficient_iff:
  assumes "load h (Balance st) = Some b" and "load h amount = Some a" and "0 \<le> a"
  shows "((\<exists>h'. SubBalance h st amount = Return (Some ErrNotEnoughBalance, h')) \<longleftrightarrow> b < a) \<and>
         (b < a \<longrightarrow> SubBalance h st amount = Return (Some ErrNotEnoughBalance, h)) \<and>
         (\<not> b < a \<longrightarrow> (\<exists>h'. SubBalance h st amount = Return (None, h') \<and>
                            load h' (Balance st) = Some (b - a)))"
proof -
  from assms(1) obtain i where i: "Balance st = Some i" "i < length (bigs h)"
    by (auto simp: load_Some_iff)
  from assms(1) i have bi: "load h (Some i) = Some b" by simp
  note sub = SubBalance_ok [OF bi assms(2) i(1)]
  show ?thesis using i by (simp add: sub load_store)
qed

theorem SubBalance_insufficient_iff_witness:
  "load heap0 (Balance acct0) = Some 100 \<and> load heap0 (Some 2) = Some 250 \<and> (0::int) \<le> 250 \<and>
   SubBalance heap0 acct0 (Some 2) = Return (Some ErrNotEnoughBalance, heap0)"
proof -
  have h1: "load heap0 (Balance acct0) = Some 100" by (simp add: heap0_def acct0_def load_def)
  have h2: "load heap0 (Some 2) = Some 250" by (simp add: heap0_def load_def)
  have h3: "(0::int) \<le> 250" by simp
  from SubBalance_insufficient_iff [OF h1 h2 h3]
  have "SubBalance heap0 acct0 (Some 2) = Return (Some ErrNotEnoughBalance, heap0)" by simp
  with h1 h2 h3 show ?thesis by simp
qed

text \<open>
  Claim C2. From a balance \<open>b \<ge> 0\<close> and an amount \<open>a \<ge> 0\<close>, \<open>AddBalance\<close> returns
  \<open>nil\<close> and leaves the balance \<open>b + a \<ge> 0\<close>, and \<open>SubBalance\<close> leaves a balance
  \<open>\<ge> 0\<close>: a debit above the balance is answered with \<open>ErrNotEnoughBalance\<close> and the
  balance stays \<open>b\<close> (it is not set to zero), any other debit leaves \<open>b - a\<close>.
\<close>

theorem balance_nonneg_invariant:
  assumes "load h (Balance st) = Some b" and "0 \<le> b"
    and "load h amount = Some a" and "0 \<le> a"
  shows "(\<exists>h'. AddBalance h st amount = Return (None, h') \<and>
               load h' (Balance st) = Some (b + a) \<and> 0 \<le> b + a) \<and>
         (\<exists>e h' b'. SubBalance h st amount = Return (e, h') \<and>
               load h' (Balance st) = Some b' \<and> 0 \<le> b' \<and>
               (b < a \<longrightarrow> e = Some ErrNotEnoughBalance \<and> b' = b) \<and>
               (\<not> b < a \<longrightarrow> e = None \<and> b' = b - a))"
proof -
  from assms(1) obtain i where i: "Balance st = Some i" "i < length (bigs h)"
    by (auto simp: load_Some_iff)
  from assms(1) i have bi: "load h (Some i) = Some b" by simp
  note add = AddBalance_ok [OF bi assms(3) i(1)]
  note sub = SubBalance_ok [OF bi assms(3) i(1)]
  have "\<exists>h'. AddBalance h st amount = Return (None, h') \<and>
               load h' (Balance st) = Some (b + a) \<and> 0 \<le> b + a"
    using i assms(2,4) by (simp add: add load_store)
  moreover have "\<exists>e h' b'. SubBalance h st amount = Return (e, h') \<and>
               load h' (Balance st) = Some b' \<and> 0 \<le> b' \<and>
               (b < a \<longrightarrow> e = Some ErrNotEnoughBalance \<and> b' = b) \<and>
               (\<not> b < a \<longrightarrow> e = None \<and> b' = b - a)"
    using i assms(1,2,4) by (cases "b < a") (simp_all add: sub load_store)
  ultimately show ?thesis by blast
qed

theorem balance_nonneg_invariant_witness:
  "load heap0 (Balance acct0) = Some 100 \<and> (0::int) \<le> 100 \<and>
   load heap0 (Some 2) = Some 250 \<and> (0::int) \<le> 250 \<and>
   (\<exists>h'. AddBalance heap0 acct0 (Some 2) = Return (None, h') \<and>
         load h' (Balance acct0) = Some 350) \<and>
   (\<exists>h'. SubBalance heap0 acct0 (Some 2) = Return (Some ErrNotEnoughBalance, h') \<and>
         load h' (Balance acct0) = Some 100)"
proof -
  have h1: "load heap0 (Balance acct0) = Some 100" by (simp add: heap0_def acct0_def load_def)
  have h2: "(0::int) \<le> 100" by simp
  have h3: "load heap0 (Some 2) = Some 250" by (simp add: heap0_def load_def)
  have h4: "(0::int) \<le> 250" by simp
  from balance_nonneg_invariant [OF h1 h2 h3 h4]
  have "(\<exists>h'. AddBalance heap0 acct0 (Some 2) = Return (None, h') \<and>
              load h' (Balance acct0) = Some 350) \<and>
        (\<exists>h'. SubBalance heap0 acct0 (Some 2) = Return (Some ErrNotEnoughBalance, h') \<and>
              load h' (Balance acct0) = Some 100)"
    by simp
  with h1 h2 h3 h4 show ?thesis by simp
qed

text \<open>
  Claim C5. From a balance \<open>b \<ge> 0\<close>, \<open>SubBalance\<close> of an amount of value \<open>a\<close> with
  \<open>0 \<le> a \<le> b\<close> succeeds, and \<open>AddBalance\<close> of an amount of value \<open>a\<close> then
  succeeds and leaves the balance \<open>b\<close> again. The amount handed to \<open>AddBalance\<close> may be
  any \<open>big.Int\<close> that holds \<open>a\<close> at that moment; the one handed to \<open>SubBalance\<close> still
  does whenever it is not the balance object itself.
\<close>

theorem SubBalance_AddBalance_roundtrip:
  assumes "load h (Balance st) = Some b" and "0 \<le> b"
    and "load h amount = Some a" and "0 \<le> a" and "a \<le> b"
  shows "\<exists>h1. SubBalance h st amount = Return (None, h1) \<and>
           (amount \<noteq> Balance st \<longrightarrow> load h1 amount = Some a) \<and>
           (\<forall>amount'. load h1 amount' = Some a \<longrightarrow>
              (\<exists>h2. AddBalance h1 st amount' = Return (None, h2) \<and>
                    load h2 (Balance st) = Some b))"
proof -
  from assms(1) obtain i where i: "Balance st = Some i" "i < length (bigs h)"
    by (auto simp: load_Some_iff)
  from assms(1) i have bi: "load h (Some i) = Some b" by simp
  let ?h1 = "store h i (b - a)"
  have sub: "SubBalance h st amount = Return (None, ?h1)"
    using SubBalance_ok [OF bi assms(3) i(1)] assms(5) by simp
  have b1: "load ?h1 (Some i) = Some (b - a)"
    using i by (simp add: load_store)
  have keep: "amount \<noteq> Balance st \<longrightarrow> load ?h1 amount = Some a"
    using assms(3) i by (auto simp: load_Some_iff store_def)
  have restore: "\<exists>h2. AddBalance ?h1 st amount' = Return (None, h2) \<and>
                    load h2 (Balance st) = Some b"
    if "load ?h1 amount' = Some a" for amount'
    using AddBalance_ok [OF b1 that i(1)] i by (simp add: load_def store_def)
  show ?thesis using sub keep restore by blast
qed

theorem SubBalance_AddBalance_roundtrip_witness:
  "load heap0 (Balance acct0) = Some 100 \<and> (0::int) \<le> 100 \<and>
   load heap0 (Some 1) = Some 30 \<and> (0::int) \<le> 30 \<and> (30::int) \<le> 100 \<and>
   (\<exists>h1 h2. SubBalance heap0 acct0 (Some 1) = Return (None, h1) \<and>
            AddBalance h1 acct0 (Some 1) = Return (None, h2) \<and>
            load h2 (Balance acct0) = Some 100)"
proof -
  have h1: "load heap0 (Balance acct0) = Some 100" by (simp add: heap0_def acct0_def load_def)
  have h2: "(0::int) \<le> 100" by simp
  have h3: "load heap0 (Some 1) = Some 30" by (simp add: heap0_def load_def)
  have h4: "(0::int) \<le> 30" by simp
  have h5: "(30::int) \<le> 100" by simp
  have other: "Some 1 \<noteq> Balance acct0" by (simp add: acct0_def)
  from SubBalance_AddBalance_roundtrip [OF h1 h2 h3 h4 h5] other
  have "\<exists>h1 h2. SubBalance heap0 acct0 (Some 1) = Return (None, h1) \<and>
            AddBalance h1 acct0 (Some 1) = Return (None, h2) \<and>
            load h2 (Balance acct0) = Some 100"
    by blast
  with h1 h2 h3 h4 h5 show ?thesis by simp
qed

text \<open>
  When the balance object itself is handed to both calls, \<open>SubBalance\<close> empties it, the
  amount is then zero as well, and \<open>AddBalance\<close> adds nothing.
\<close>

lemma SubBalance_AddBalance_same_object:
  assumes "load h (Balance st) = Some b" and "0 \<le> b"
  shows "\<exists>h1 h2. SubBalance h st (Balance st) = Return (None, h1) \<and>
           load h1 (Balance st) = Some 0 \<and>
           AddBalance h1 st (Balance st) = Return (None, h2) \<and>
           load h2 (Balance st) = Some 0"
proof -
  from assms(1) obtain i where i: "Balance st = Some i" "i < length (bigs h)"
    by (auto simp: load_Some_iff)
  from assms(1) i have bi: "load h (Some i) = Some b" by simp
  let ?h1 = "store h i 0"
  have sub: "SubBalance h st (Some i) = Return (None, ?h1)"
    using SubBalance_ok [OF bi bi i(1)] by simp
  have b1: "load ?h1 (Some i) = Some 0"
    using i by (simp add: load_store)
  have add: "AddBalance ?h1 st (Some i) = Return (None, store ?h1 i 0)"
    using AddBalance_ok [OF b1 b1 i(1)] by simp
  have "load (store ?h1 i 0) (Some i) = Some 0"
    using i by (simp add: load_def store_def)
  with sub b1 add i(1) show ?thesis by simp
qed

subsection \<open>The codec wrappers\<close>

text \<open>
  All that the two wrappers add to the library: its error becomes the sentinel of the
  wrapper, and its result is passed on unchanged.
\<close>

lemma stateToBytes_cases:
  "stateToBytes Encode h s = Inl e \<longleftrightarrow> Encode h s = None \<and> e = ErrFailedToMarshalState"
  "stateToBytes Encode h s = Inr ss \<longleftrightarrow> Encode h s = Some ss"
  by (auto simp: stateToBytes_def split: option.splits)

lemma bytesToState_cases:
  "bytesToState Decode h ss = Inl e \<longleftrightarrow> Decode h ss = None \<and> e = ErrFailedToUnmarshalState"
  "bytesToState Decode h ss = Inr r \<longleftrightarrow> Decode h ss = Some r"
  by (auto simp: bytesToState_def split: option.splits)

subsection \<open>clone\<close>

lemma clone_ok:
  assumes "load h (Balance st) = Some b" and "load h (VotingWeight st) = Some v"
    and "code_ok h st"
  shows "clone h st =
     Return (st\<lparr>Balance := Some (length (bigs h)), VotingWeight := Some (Suc (length (bigs h))),
                CodeHash := map_option (\<lambda>c. \<lparr>s_arr = length (arrays h), s_off = 0,
                              s_len = s_len c, s_cap = s_len c\<rparr>) (CodeHash st),
                Voters := None\<rparr>,
             h\<lparr>bigs := bigs h @ [b, v],
               arrays := (case CodeHash st of None \<Rightarrow> arrays h
                         | Some c \<Rightarrow> arrays h @ [slice_bytes h c])\<rparr>)"
proof -
  let ?h1 = "h\<lparr>bigs := bigs h @ [b]\<rparr>"
  have 1: "Int_new_Set h (Balance st) = Return (length (bigs h), ?h1)"
    by (rule Int_new_Set_ok [OF assms(1)])
  have "load ?h1 (VotingWeight st) = Some v"
    by (rule load_append [OF assms(2)])
  from Int_new_Set_ok [OF this]
  have 2: "Int_new_Set ?h1 (VotingWeight st) =
             Return (Suc (length (bigs h)), h\<lparr>bigs := bigs h @ [b, v]\<rparr>)"
    by simp
  show ?thesis
  proof (cases "CodeHash st")
    case None
    then show ?thesis
      by (simp add: clone_def 1 2)
  next
    case (Some c)
    with assms(3) have "s_arr c < length (arrays h)" by (simp add: slice_ok_def code_ok_def)
    with Some show ?thesis
      by (simp add: clone_def 1 2 make_bytes_def copy_bytes_def slice_bytes_def nth_append
            Let_def)
  qed
qed

text \<open>
  Claim C6, as the code has it. \<open>clone\<close> dereferences \<open>st.Balance\<close> and
  \<open>st.VotingWeight\<close>, so it returns only for a State in which both are non-nil. For
  such a State the copy agrees with the original on \<open>Nonce\<close>, \<open>Root\<close>,
  \<open>IsCandidate\<close> and \<open>Votee\<close>, on the values of \<open>Balance\<close> and \<open>VotingWeight\<close> and on
  the bytes of \<open>CodeHash\<close> (\<open>nil\<close> exactly when the original's is), and its \<open>Voters\<close> is
  \<open>nil\<close>. Its two integers are new objects, distinct from each other, and its
  \<open>CodeHash\<close> lies in a new array; nothing that was in the store has changed. Crediting or
  debiting the copy changes the copy's balance and leaves the original's balance alone.
\<close>

theorem clone_independent_copy:
  assumes bal: "load h (Balance st) = Some b" and vw: "load h (VotingWeight st) = Some v"
    and code: "code_ok h st"
  shows "\<exists>s h'. clone h st = Return (s, h') \<and>
     Nonce s = Nonce st \<and> Root s = Root st \<and> IsCandidate s = IsCandidate st \<and>
     Votee s = Votee st \<and>
     load h' (Balance s) = Some b \<and> load h' (VotingWeight s) = Some v \<and>
     map_option (slice_bytes h') (CodeHash s) = map_option (slice_bytes h) (CodeHash st) \<and>
     Voters s = None \<and>
     load h (Balance s) = None \<and> load h (VotingWeight s) = None \<and>
     Balance s \<noteq> VotingWeight s \<and>
     (\<forall>c'. CodeHash s = Some c' \<longrightarrow> length (arrays h) \<le> s_arr c') \<and>
     (\<forall>p x. load h p = Some x \<longrightarrow> load h' p = Some x) \<and>
     take (length (arrays h)) (arrays h') = arrays h \<and> maps h' = maps h \<and>
     (\<forall>amount a. load h' amount = Some a \<longrightarrow>
        (\<exists>h''. AddBalance h' s amount = Return (None, h'') \<and>
               load h'' (Balance s) = Some (b + a) \<and> load h'' (Balance st) = Some b)) \<and>
     (\<forall>amount a. load h' amount = Some a \<longrightarrow> a \<le> b \<longrightarrow>
        (\<exists>h''. SubBalance h' s amount = Return (None, h'') \<and>
               load h'' (Balance s) = Some (b - a) \<and> load h'' (Balance st) = Some b))"
proof -
  let ?n = "length (bigs h)"
  let ?s = "st\<lparr>Balance := Some ?n, VotingWeight := Some (Suc ?n),
                CodeHash := map_option (\<lambda>c. \<lparr>s_arr = length (arrays h), s_off = 0,
                              s_len = s_len c, s_cap = s_len c\<rparr>) (CodeHash st),
                Voters := None\<rparr>"
  let ?h' = "h\<lparr>bigs := bigs h @ [b, v],
               arrays := (case CodeHash st of None \<Rightarrow> arrays h
                         | Some c \<Rightarrow> arrays h @ [slice_bytes h c])\<rparr>"
  from bal obtain i where i: "Balance st = Some i" "i < ?n" "bigs h ! i = b"
    by (auto simp: load_Some_iff)
  have c0: "clone h st = Return (?s, ?h')"
    by (rule clone_ok [OF bal vw code])
  have c1: "Nonce ?s = Nonce st \<and> Root ?s = Root st \<and> IsCandidate ?s = IsCandidate st \<and>
            Votee ?s = Votee st \<and> Voters ?s = None"
    by simp
  have c2: "load ?h' (Balance ?s) = Some b" "load ?h' (VotingWeight ?s) = Some v"
    by (simp_all add: load_def nth_append)
  have c3: "map_option (slice_bytes ?h') (CodeHash ?s) =
            map_option (slice_bytes h) (CodeHash st)"
    by (cases "CodeHash st") (simp_all add: slice_bytes_def)
  have c4: "load h (Balance ?s) = None" "load h (VotingWeight ?s) = None"
    "Balance ?s \<noteq> VotingWeight ?s"
    by (simp_all add: load_def)
  have c5: "\<forall>c'. CodeHash ?s = Some c' \<longrightarrow> length (arrays h) \<le> s_arr c'"
    by auto
  have c6: "\<forall>p x. load h p = Some x \<longrightarrow> load ?h' p = Some x"
    by (auto simp: load_Some_iff nth_append)
  have c7: "take (length (arrays h)) (arrays ?h') = arrays h" "maps ?h' = maps h"
    by (simp_all split: option.split)
  have own: "load ?h' (Some ?n) = Some b"
    by (simp add: load_def nth_append)
  have c8: "\<exists>h''. AddBalance ?h' ?s amount = Return (None, h'') \<and>
               load h'' (Balance ?s) = Some (b + a) \<and> load h'' (Balance st) = Some b"
    if "load ?h' amount = Some a" for amount a
    using AddBalance_ok [OF own that, of ?s] i
    by (simp add: load_def store_def nth_append)
  have c9: "\<exists>h''. SubBalance ?h' ?s amount = Return (None, h'') \<and>
               load h'' (Balance ?s) = Some (b - a) \<and> load h'' (Balance st) = Some b"
    if "load ?h' amount = Some a" and "a \<le> b" for amount a
    using SubBalance_ok [OF own that(1), of ?s] i that(2)
    by (simp add: load_def store_def nth_append)
  show ?thesis
    apply (rule exI [of _ ?s])
    apply (rule exI [of _ ?h'])
    apply (intro conjI allI impI)
    using c0 c1 c2 c3 c4 c5 c6 c7 c8 c9 apply blast+
    done
qed

theorem clone_independent_copy_witness:
  "load heap0 (Balance acct0) = Some 100 \<and> load heap0 (VotingWeight acct0) = Some 250 \<and>
   code_ok heap0 acct0 \<and>
   (\<exists>s h'. clone heap0 acct0 = Return (s, h') \<and> Voters s = None \<and>
      load h' (Balance s) = Some 100 \<and>
      (\<exists>h''. AddBalance h' s (Some 1) = Return (None, h'') \<and>
             load h'' (Balance s) = Some 130 \<and> load h'' (Balance acct0) = Some 100))"
proof -
  have h1: "load heap0 (Balance acct0) = Some 100" by (simp add: heap0_def acct0_def load_def)
  have h2: "load heap0 (VotingWeight acct0) = Some 250"
    by (simp add: heap0_def acct0_def load_def)
  have h3: "code_ok heap0 acct0" by (simp add: code_ok_def slice_ok_def heap0_def acct0_def)
  have amt: "load heap0 (Some 1) = Some 30" by (simp add: heap0_def load_def)
  from clone_independent_copy [OF h1 h2 h3] obtain s h' where
    c: "clone heap0 acct0 = Return (s, h')" "Voters s = None" "load h' (Balance s) = Some 100"
    and keep: "\<forall>p x. load heap0 p = Some x \<longrightarrow> load h' p = Some x"
    and add: "\<forall>amount a. load h' amount = Some a \<longrightarrow>
        (\<exists>h''. AddBalance h' s amount = Return (None, h'') \<and>
               load h'' (Balance s) = Some (100 + a) \<and> load h'' (Balance acct0) = Some 100)"
    by blast
  from keep amt have "load h' (Some 1) = Some 30" by blast
  with add have "\<exists>h''. AddBalance h' s (Some 1) = Return (None, h'') \<and>
               load h'' (Balance s) = Some (100 + 30) \<and> load h'' (Balance acct0) = Some 100"
    by blast
  then have "\<exists>h''. AddBalance h' s (Some 1) = Return (None, h'') \<and>
               load h'' (Balance s) = Some 130 \<and> load h'' (Balance acct0) = Some 100"
    by simp
  with c have "\<exists>s h'. clone heap0 acct0 = Return (s, h') \<and> Voters s = None \<and>
      load h' (Balance s) = Some 100 \<and>
      (\<exists>h''. AddBalance h' s (Some 1) = Return (None, h'') \<and>
             load h'' (Balance s) = Some 130 \<and> load h'' (Balance acct0) = Some 100)"
    by blast
  with h1 h2 h3 show ?thesis by simp
qed

text \<open>
  Claim C6 as stated speaks of every State. A State with a \<open>nil\<close> balance is a value of
  the type, and on it \<open>clone\<close> panics instead of returning a copy.
\<close>

theorem clone_nil_Balance_counterexample:
  "Balance acct_nil = None \<and> clone heap0 acct_nil = Panic"
  by (simp add: clone_def Int_new_Set_nil acct_nil_def)


section \<open>Properties of the server\<close>

subsection \<open>bcService\<close>

lemma HandleAction_forward:
  "HandleAction env act tr =
     (if GetTransfer act \<noteq> None then (env tr (AddTsf act), tr @ [AddTsf act])
      else if GetVote act \<noteq> None then (env tr (AddVote act), tr @ [AddVote act])
      else if GetExecution act \<noteq> None then (env tr (AddExecution act), tr @ [AddExecution act])
      else (None, tr))"
  by (simp add: HandleAction_def invoke_def split: option.split)

text \<open>
  Claim C8, as the code has it. Every handler but \<open>HandleAction\<close> makes exactly one call,
  on its designated subsystem and with its arguments unchanged, and returns what that call
  returns: \<open>HandleBlock\<close> calls \<open>ProcessBlock\<close>, \<open>HandleBlockSync\<close> calls
  \<open>ProcessBlockSync\<close>, \<open>HandleSyncRequest\<close> calls \<open>ProcessSyncRequest\<close>,
  \<open>HandleViewChange\<close> and \<open>HandleBlockPropose\<close> call the consensus handler of the same
  name. \<open>HandleAction\<close> makes exactly one call on the action pool when the message
  carries a kind (\<open>AddTsf\<close> for a transfer, else \<open>AddVote\<close> for a vote, else
  \<open>AddExecution\<close> for an execution) and returns what the pool returns; a message that
  carries no kind goes to no subsystem and \<open>nil\<close> is returned.
\<close>

theorem bcService_routes:
  "(GetTransfer act \<noteq> None \<longrightarrow>
      HandleAction env act tr = (env tr (AddTsf act), tr @ [AddTsf act])) \<and>
   (GetTransfer act = None \<and> GetVote act \<noteq> None \<longrightarrow>
      HandleAction env act tr = (env tr (AddVote act), tr @ [AddVote act])) \<and>
   (GetTransfer act = None \<and> GetVote act = None \<and> GetExecution act \<noteq> None \<longrightarrow>
      HandleAction env act tr = (env tr (AddExecution act), tr @ [AddExecution act])) \<and>
   (GetTransfer act = None \<and> GetVote act = None \<and> GetExecution act = None \<longrightarrow>
      HandleAction env act tr = (None, tr)) \<and>
   HandleBlock env blk tr = (env tr (ProcessBlock blk), tr @ [ProcessBlock blk]) \<and>
   HandleBlockSync env blk tr = (env tr (ProcessBlockSync blk), tr @ [ProcessBlockSync blk]) \<and>
   HandleSyncRequest env sender sync tr =
     (env tr (ProcessSyncRequest sender sync), tr @ [ProcessSyncRequest sender sync]) \<and>
   HandleViewChange env msg tr =
     (env tr (cs_HandleViewChange msg), tr @ [cs_HandleViewChange msg]) \<and>
   HandleBlockPropose env msg tr =
     (env tr (cs_HandleBlockPropose msg), tr @ [cs_HandleBlockPropose msg])"
  by (simp add: HandleAction_forward HandleBlock_def HandleBlockSync_def HandleSyncRequest_def
        HandleViewChange_def HandleBlockPropose_def invoke_def)

theorem bcService_routes_witness:
  "GetTransfer vote_msg = None \<and> GetVote vote_msg = Some 7 \<and>
   HandleAction reject_all vote_msg [] = (Some (External ''rejected''), [AddVote vote_msg]) \<and>
   HandleBlock reject_all 3 [] = (Some (External ''rejected''), [ProcessBlock 3])"
proof -
  have h1: "GetTransfer vote_msg = None" by (simp add: vote_msg_def)
  have h2: "GetVote vote_msg = Some 7" by (simp add: vote_msg_def)
  from bcService_routes [of vote_msg reject_all "[]" 3] h1 h2
  have "HandleAction reject_all vote_msg [] = (reject_all [] (AddVote vote_msg), [AddVote vote_msg])"
    and "HandleBlock reject_all 3 [] = (reject_all [] (ProcessBlock 3), [ProcessBlock 3])"
    by simp_all
  with h1 h2 show ?thesis by (simp add: reject_all_def)
qed

text \<open>
  Claim C8 as stated has every message go to exactly one subsystem. An action message
  with no kind goes to none, and \<open>nil\<close> is returned although every subsystem of this
  world would have answered with an error.
\<close>

theorem bcService_routes_counterexample:
  "fst (HandleAction reject_all no_kind []) = None \<and>
   length (snd (HandleAction reject_all no_kind [])) = 0"
  by (simp add: HandleAction_def no_kind_def)

text \<open>
  Claim C10. On an action message that carries no transfer, no vote and no execution,
  \<open>HandleAction\<close> returns \<open>nil\<close> and makes no call: the trace is as it was.
\<close>

theorem HandleAction_no_kind:
  assumes "GetTransfer act = None" and "GetVote act = None" and "GetExecution act = None"
  shows "HandleAction env act tr = (None, tr)"
  using assms by (simp add: HandleAction_def)

theorem HandleAction_no_kind_witness:
  "GetTransfer no_kind = None \<and> GetVote no_kind = None \<and> GetExecution no_kind = None \<and>
   HandleAction reject_all no_kind [AddVote vote_msg] = (None, [AddVote vote_msg])"
proof -
  have h1: "GetTransfer no_kind = None" by (simp add: no_kind_def)
  have h2: "GetVote no_kind = None" by (simp add: no_kind_def)
  have h3: "GetExecution no_kind = None" by (simp add: no_kind_def)
  from HandleAction_no_kind [OF h1 h2 h3, of reject_all "[AddVote vote_msg]"] h1 h2 h3
  show ?thesis by simp
qed

subsection \<open>NewServer\<close>

lemma NewServer_tail_Some:
  "NewServer_tail env c (Some b) tr =
     (map_outcome Some (newServer env (tr @ [call_ChainID b]) c b),
      tr @ [call_ChainID b, call_newServer b])"
  by (simp add: NewServer_tail_def Let_def split: outcome.split)

lemma NewServer_tail_None: "NewServer_tail env c None tr = (Panic, tr)"
  by (simp add: NewServer_tail_def)

text \<open>
  Claim C7. When the first \<open>NewBlockchain\<close> returns \<open>nil\<close> and
  \<open>EnableFallBackToFreshDB\<close> is set, \<open>NewServer\<close> renames the chain database to its
  path with \<open>.old\<close> appended; if that fails it returns \<open>nil\<close>. Otherwise it renames the
  trie database likewise; if that fails it returns \<open>nil\<close>. Otherwise it calls
  \<open>NewBlockchain\<close> again and goes on with that chain: when there is one, it reads its
  identifier and returns what \<open>newServer\<close> returns for it.
\<close>

theorem NewServer_fallback:
  assumes "NewBlockchain env tr c = None" and "EnableFallBackToFreshDB (Chain c)"
    and "cdb = ChainDBPath (Chain c)" and "tdb = TrieDBPath (Chain c)"
    and "tr1 = tr @ [call_NewBlockchain]"
    and "tr2 = tr1 @ [call_Rename cdb (cdb @ ''.old'')]"
    and "tr3 = tr2 @ [call_Rename tdb (tdb @ ''.old'')]"
  shows
    "(os_Rename env tr1 cdb (cdb @ ''.old'') \<noteq> None \<longrightarrow>
        NewServer env c tr = (Return None, tr2)) \<and>
     (os_Rename env tr1 cdb (cdb @ ''.old'') = None \<and>
      os_Rename env tr2 tdb (tdb @ ''.old'') \<noteq> None \<longrightarrow>
        NewServer env c tr = (Return None, tr3)) \<and>
     (os_Rename env tr1 cdb (cdb @ ''.old'') = None \<and>
      os_Rename env tr2 tdb (tdb @ ''.old'') = None \<longrightarrow>
        prefix (tr3 @ [call_NewBlockchain]) (snd (NewServer env c tr)) \<and>
        (\<forall>b. NewBlockchain env tr3 c = Some b \<longrightarrow>
           NewServer env c tr =
             (map_outcome Some (newServer env (tr3 @ [call_NewBlockchain, call_ChainID b]) c b),
              tr3 @ [call_NewBlockchain, call_ChainID b, call_newServer b])))"
proof (intro conjI impI)
  assume "os_Rename env tr1 cdb (cdb @ ''.old'') \<noteq> None"
  with assms show "NewServer env c tr = (Return None, tr2)"
    by (auto simp: NewServer_def Let_def)
next
  assume "os_Rename env tr1 cdb (cdb @ ''.old'') = None \<and>
      os_Rename env tr2 tdb (tdb @ ''.old'') \<noteq> None"
  with assms show "NewServer env c tr = (Return None, tr3)"
    by (auto simp: NewServer_def Let_def)
next
  assume ok: "os_Rename env tr1 cdb (cdb @ ''.old'') = None \<and>
      os_Rename env tr2 tdb (tdb @ ''.old'') = None"
  with assms have eq: "NewServer env c tr =
      NewServer_tail env c (NewBlockchain env tr3 c) (tr3 @ [call_NewBlockchain])"
    by (simp add: NewServer_def Let_def)
  show "prefix (tr3 @ [call_NewBlockchain]) (snd (NewServer env c tr))"
    by (cases "NewBlockchain env tr3 c")
       (simp_all add: eq NewServer_tail_None NewServer_tail_Some)
  show "\<forall>b. NewBlockchain env tr3 c = Some b \<longrightarrow>
           NewServer env c tr =
             (map_outcome Some (newServer env (tr3 @ [call_NewBlockchain, call_ChainID b]) c b),
              tr3 @ [call_NewBlockchain, call_ChainID b, call_newServer b])"
    by (simp add: eq NewServer_tail_Some)
qed

theorem NewServer_fallback_witness:
  "NewBlockchain corrupt_db [] cfg_fallback = None \<and>
   EnableFallBackToFreshDB (Chain cfg_fallback) \<and>
   NewServer corrupt_db cfg_fallback [] =
     (Return (Some (built cfg_fallback 9)),
      [call_NewBlockchain, call_Rename ''chain.db'' ''chain.db.old'',
       call_Rename ''trie.db'' ''trie.db.old'', call_NewBlockchain, call_ChainID 9,
       call_newServer 9])"
proof -
  have h1: "NewBlockchain corrupt_db [] cfg_fallback = None" by (simp add: corrupt_db_def)
  have h2: "EnableFallBackToFreshDB (Chain cfg_fallback)" by (simp add: cfg_fallback_def)
  from NewServer_fallback [OF h1 h2 refl refl refl refl refl]
  have "NewServer corrupt_db cfg_fallback [] =
     (Return (Some (built cfg_fallback 9)),
      [call_NewBlockchain, call_Rename ''chain.db'' ''chain.db.old'',
       call_Rename ''trie.db'' ''trie.db.old'', call_NewBlockchain, call_ChainID 9,
       call_newServer 9])"
    by (simp add: corrupt_db_def cfg_fallback_def)
  with h1 h2 show ?thesis by simp
qed

text \<open>
  Claim C9. \<open>NewServer\<close> tests the chain for \<open>nil\<close> nowhere but in the condition of the
  fallback branch. When the first \<open>NewBlockchain\<close> returns \<open>nil\<close> and the flag is unset,
  and when the flag is set, both renames succeed and the second \<open>NewBlockchain\<close> returns
  \<open>nil\<close> too, it reaches \<open>chain.ChainID()\<close> with a \<open>nil\<close> chain and panics, before any
  call of \<open>newServer\<close>. When the first \<open>NewBlockchain\<close> returns a chain, \<open>ChainID\<close> is
  called on that chain and the result is that of \<open>newServer\<close>.
\<close>

theorem NewServer_nil_chain:
  assumes "cdb = ChainDBPath (Chain c)" and "tdb = TrieDBPath (Chain c)"
    and "tr1 = tr @ [call_NewBlockchain]"
    and "tr2 = tr1 @ [call_Rename cdb (cdb @ ''.old'')]"
    and "tr3 = tr2 @ [call_Rename tdb (tdb @ ''.old'')]"
  shows
    "(NewBlockchain env tr c = None \<and> \<not> EnableFallBackToFreshDB (Chain c) \<longrightarrow>
        NewServer env c tr = (Panic, tr1)) \<and>
     (NewBlockchain env tr c = None \<and> EnableFallBackToFreshDB (Chain c) \<and>
      os_Rename env tr1 cdb (cdb @ ''.old'') = None \<and>
      os_Rename env tr2 tdb (tdb @ ''.old'') = None \<and>
      NewBlockchain env tr3 c = None \<longrightarrow>
        NewServer env c tr = (Panic, tr3 @ [call_NewBlockchain])) \<and>
     (\<forall>b. NewBlockchain env tr c = Some b \<longrightarrow>
        NewServer env c tr =
          (map_outcome Some (newServer env (tr1 @ [call_ChainID b]) c b),
           tr1 @ [call_ChainID b, call_newServer b]))"
  using assms
  by (simp add: NewServer_def Let_def NewServer_tail_None NewServer_tail_Some)

theorem NewServer_nil_chain_witness:
  "NewBlockchain no_chain [] cfg_strict = None \<and>
   EnableFallBackToFreshDB (Chain cfg_strict) = False \<and>
   NewServer no_chain cfg_strict [] = (Panic, [call_NewBlockchain]) \<and>
   NewServer no_chain cfg_fallback [] =
     (Panic, [call_NewBlockchain, call_Rename ''chain.db'' ''chain.db.old'',
              call_Rename ''trie.db'' ''trie.db.old'', call_NewBlockchain])"
proof -
  have h1: "NewBlockchain no_chain [] cfg_strict = None" by (simp add: no_chain_def)
  have h2: "EnableFallBackToFreshDB (Chain cfg_strict) = False" by (simp add: cfg_strict_def)
  from NewServer_nil_chain [OF refl refl refl refl refl, of no_chain "[]" cfg_strict] h1 h2
  have a: "NewServer no_chain cfg_strict [] = (Panic, [call_NewBlockchain])"
    by simp
  from NewServer_nil_chain [OF refl refl refl refl refl, of no_chain "[]" cfg_fallback]
  have b: "NewServer no_chain cfg_fallback [] =
     (Panic, [call_NewBlockchain, call_Rename ''chain.db'' ''chain.db.old'',
              call_Rename ''trie.db'' ''trie.db.old'', call_NewBlockchain])"
    by (simp add: no_chain_def cfg_fallback_def)
  from h1 h2 a b show ?thesis by simp
qed

subsection \<open>Start and Stop\<close>

lemma Start_prefix:
  "prefix (snd (Start env tr))
     (tr @ map StartOf [Blockchain, Dispatcher, Consensus, BlockSync, Overlay, ExplorerServer])"
  by (simp add: Start_def invoke_def split: option.split)

lemma Start_complete:
  "fst (Start env tr) = None \<Longrightarrow> snd (Start env tr) =
     tr @ map StartOf [Blockchain, Dispatcher, Consensus, BlockSync, Overlay, ExplorerServer]"
  by (simp add: Start_def invoke_def split: option.splits)

lemma Stop_prefix:
  "prefix (snd (Stop env tr))
     (tr @ map StopOf [ExplorerServer, Overlay, Consensus, BlockSync, Dispatcher, Blockchain])"
  by (simp add: Stop_def invoke_def split: option.split)

lemma Stop_complete:
  "fst (Stop env tr) = None \<Longrightarrow> snd (Stop env tr) =
     tr @ map StopOf [ExplorerServer, Overlay, Consensus, BlockSync, Dispatcher, Blockchain]"
  by (simp add: Stop_def invoke_def split: option.splits)

text \<open>
  Claim C3, as the code has it. \<open>Start\<close> starts chain, dispatcher, consensus, block-sync,
  network transport and explorer in this order, up to the first that fails, and all six
  when it returns \<open>nil\<close>. \<open>Stop\<close> stops explorer, network transport, consensus,
  block-sync, dispatcher and chain in this order, up to the first that fails, and all six
  when it returns \<open>nil\<close>: the reverse of the start order but for consensus, which is
  stopped before block-sync.
\<close>

theorem Start_Stop_order:
  "prefix (snd (Start env tr))
     (tr @ map StartOf [Blockchain, Dispatcher, Consensus, BlockSync, Overlay, ExplorerServer]) \<and>
   (fst (Start env tr) = None \<longrightarrow> snd (Start env tr) =
     tr @ map StartOf [Blockchain, Dispatcher, Consensus, BlockSync, Overlay, ExplorerServer]) \<and>
   prefix (snd (Stop env tr))
     (tr @ map StopOf [ExplorerServer, Overlay, Consensus, BlockSync, Dispatcher, Blockchain]) \<and>
   (fst (Stop env tr) = None \<longrightarrow> snd (Stop env tr) =
     tr @ map StopOf [ExplorerServer, Overlay, Consensus, BlockSync, Dispatcher, Blockchain])"
  using Start_prefix Start_complete Stop_prefix Stop_complete by blast

theorem Start_Stop_order_witness:
  "fst (Start all_succeed []) = None \<and> fst (Stop all_succeed []) = None \<and>
   snd (Start all_succeed []) =
     [StartOf Blockchain, StartOf Dispatcher, StartOf Consensus, StartOf BlockSync,
      StartOf Overlay, StartOf ExplorerServer] \<and>
   snd (Stop all_succeed []) =
     [StopOf ExplorerServer, StopOf Overlay, StopOf Consensus, StopOf BlockSync,
      StopOf Dispatcher, StopOf Blockchain]"
proof -
  have h1: "fst (Start all_succeed []) = None"
    by (simp add: Start_def invoke_def all_succeed_def)
  have h2: "fst (Stop all_succeed []) = None"
    by (simp add: Stop_def invoke_def all_succeed_def)
  from Start_Stop_order [of all_succeed "[]"] h1 h2 show ?thesis by simp
qed

text \<open>
  Claim C3 as stated has \<open>Stop\<close> run through the subsystems in the exact reverse of the
  order of \<open>Start\<close>. With every call succeeding the two orders are not each other's
  reverse.
\<close>

theorem Stop_reverse_counterexample:
  "map component_of (snd (Stop all_succeed [])) \<noteq>
   rev (map component_of (snd (Start all_succeed [])))"
  by (simp add: Start_def Stop_def invoke_def all_succeed_def component_of_def)


end
